theory Spec2Isabelle
  imports Main "HOL-Library.Log_Nat" "HOL-Library.Sublist"
begin

section \<open>Numbers: Python floats as binary64 values\<close>

text \<open>
  Amounts, scores, confidences and timestamps are Python floats. A finite float is a
  rational number, so the model keeps them in \<open>rat\<close> and rounds after every arithmetic
  operation the way IEEE 754 binary64 does: to the nearest number with a 53-bit
  significand, ties to the even significand, with the subnormal grid below \<open>2^-1022\<close>.
  Overflow to infinity (magnitudes from \<open>2^1024\<close>) and NaN are outside the model; no
  statement below evaluates the rounding there. A decimal literal \<open>0.15\<close> of the source
  is the float \<open>fl (15 / 100)\<close>.
\<close>

definition pow2 :: "int \<Rightarrow> rat" where
  "pow2 e = 2 powi e"

text \<open>The binary exponent of a positive rational: \<open>pow2 (ilog2 x) \<le> x < pow2 (ilog2 x + 1)\<close>.\<close>

definition ilog2 :: "rat \<Rightarrow> int" where
  "ilog2 x = (case quotient_of x of (p, q) \<Rightarrow>
     (let k = bitlen p - bitlen q in if pow2 k \<le> x then k else k - 1))"

definition round_half_even :: "rat \<Rightarrow> int" where
  "round_half_even x = (let n = \<lfloor>x\<rfloor>; r = x - of_int n in
     if r < 1 / 2 then n else if 1 / 2 < r then n + 1 else if even n then n else n + 1)"

definition fl :: "rat \<Rightarrow> rat" where
  "fl x = (if x = 0 then 0 else
     (let e = max (ilog2 \<bar>x\<bar> - 52) (- 1074)
      in of_int (round_half_even (x / pow2 e)) * pow2 e))"

definition fadd :: "rat \<Rightarrow> rat \<Rightarrow> rat" where
  "fadd x y = fl (x + y)"

definition fsub :: "rat \<Rightarrow> rat \<Rightarrow> rat" where
  "fsub x y = fl (x - y)"

definition fdiv :: "rat \<Rightarrow> rat \<Rightarrow> rat" where
  "fdiv x y = fl (x / y)"

text \<open>
  The built-in \<open>sum\<close> over floats starts from the integer 0 and adds from left to
  right. This is CPython up to version 3.11, and the model of \<open>sum\<close> in the analyzer.
\<close>

definition py_sum :: "rat list \<Rightarrow> rat" where
  "py_sum xs = foldl fadd 0 xs"

text \<open>
  From version 3.12 on, CPython's \<open>sum\<close> carries a compensation term \<open>c\<close> through its
  float loop and adds it at the end when it is not zero. The loop starts at the sum of
  the integer 0 and the first float.
\<close>

fun compensated_loop :: "rat \<Rightarrow> rat \<Rightarrow> rat list \<Rightarrow> rat" where
  "compensated_loop f_result c [] = (if c \<noteq> 0 then fadd f_result c else f_result)"
| "compensated_loop f_result c (x # xs) =
     (let t = fadd f_result x;
          c = (if \<bar>x\<bar> \<le> \<bar>f_result\<bar> then fadd c (fadd (fsub f_result t) x)
               else fadd c (fadd (fsub x t) f_result))
      in compensated_loop t c xs)"

definition py_sum_compensated :: "rat list \<Rightarrow> rat" where
  "py_sum_compensated xs = (case xs of [] \<Rightarrow> 0 | x # rest \<Rightarrow> compensated_loop (fadd 0 x) 0 rest)"

text \<open>\<open>sep.join(parts)\<close> on strings.\<close>

fun join :: "string \<Rightarrow> string list \<Rightarrow> string" where
  "join sep [] = []"
| "join sep [x] = x"
| "join sep (x # y # ys) = x @ sep @ join sep (y # ys)"

text \<open>
  \<open>sorted(xs, key=key, reverse=True)\<close>: the list is reversed, sorted stably in
  ascending order of the key and reversed again, so that equal keys keep the order they
  have in \<open>xs\<close>.
\<close>

definition sorted_reverse :: "('a \<Rightarrow> 'k::linorder) \<Rightarrow> 'a list \<Rightarrow> 'a list" where
  "sorted_reverse key xs = rev (sort_key key (rev xs))"

section \<open>Data model (app/models.py)\<close>

record CustomerProfile =
  profile_customer_id :: string
  name :: string
  document :: string
  segment :: string
  monthly_revenue :: rat
  account_age_months :: int
  credit_score :: int

record Transaction =
  tx_id :: string
  date :: string
  amount :: rat
  tx_type :: string
  category :: string
  description :: string

record TokenUsage =
  prompt_tokens :: int
  completion_tokens :: int
  total_tokens :: int

text \<open>
  The analyzer renders its figures into one text, stored under the key
  \<open>"financial_analysis"\<close>. The model keeps the figures themselves: the values of the
  local variables of \<open>_compute_analysis\<close>. \<open>No_Transaction_Data\<close> is the literal
  "No transaction data available.".
\<close>

record Analysis =
  total_income :: rat
  total_expenses :: rat
  net_cashflow :: rat
  categories :: "(string \<times> rat) list"
  top_categories :: "(string \<times> rat) list"
  num_transactions :: nat
  cashflow_positive :: bool
  expense_ratio :: "rat option"

datatype tool_output = No_Transaction_Data | Summary Analysis

text \<open>
  The reasoning text is one of three shapes: the default empty string, the success
  sentence with its two counts, or the failure sentence with the exception's text.
\<close>

datatype reasoning_text = No_Reasoning | Based_On nat nat | Synthesis_Error string

record AgentState =
  customer_id :: string
  profile :: "CustomerProfile option"
  transactions :: "Transaction list"
  query :: string
  plan :: "string list"
  retrieved_context :: string
  rag_sources :: "string list"
  tool_results :: "string \<rightharpoonup> tool_output"
  tools_executed :: "string list"
  answer :: string
  reasoning :: reasoning_text
  confidence :: rat
  token_usage :: TokenUsage
  errors :: "string list"

definition TokenUsage0 :: TokenUsage where
  "TokenUsage0 = \<lparr>prompt_tokens = 0, completion_tokens = 0, total_tokens = 0\<rparr>"

text \<open>The state the boundary builds: every field but the four request fields at its default.\<close>

definition initial_state ::
  "string \<Rightarrow> CustomerProfile option \<Rightarrow> Transaction list \<Rightarrow> string \<Rightarrow> AgentState" where
  "initial_state cid p txs q =
     \<lparr>customer_id = cid, profile = p, transactions = txs, query = q, plan = [],
      retrieved_context = [], rag_sources = [], tool_results = Map.empty,
      tools_executed = [], answer = [], reasoning = No_Reasoning, confidence = 0,
      token_usage = TokenUsage0, errors = []\<rparr>"

text \<open>
  What \<open>llm.invoke(prompt)\<close> answers: the text and, when the response carries
  \<open>response_metadata["token_usage"]\<close>, that dictionary of counters.
\<close>

record llm_response =
  content :: string
  usage_metadata :: "(string \<rightharpoonup> int) option"

section \<open>Planner (app/nodes/planner.py)\<close>

text \<open>
  \<open>plan_steps\<close> returns the delta \<open>{"plan": plan}\<close>; \<open>plan_steps\<close> below is the plan and
  \<open>planner\<close> the state after the engine merged the delta.
\<close>

definition plan_steps :: "AgentState \<Rightarrow> string list" where
  "plan_steps state =
     (let plan = [];
          plan = plan @ [''retrieve_knowledge''];
          plan = (if transactions state \<noteq> [] then plan @ [''analyze_financials''] else plan)
      in plan)"

definition planner :: "AgentState \<Rightarrow> AgentState" where
  "planner state = state\<lparr>plan := plan_steps state\<rparr>"

section \<open>Knowledge store: search (app/rag/supabase_store.py, app/rag/retriever.py)\<close>

record Document =
  page_content :: string
  metadata :: "string \<rightharpoonup> string"

text \<open>
  A row of the \<open>match_documents\<close> reply. The metadata is absent, a JSON object, or a text
  that \<open>json.loads\<close> either decodes (\<open>Some\<close>) or rejects with \<open>JSONDecodeError\<close>
  (\<open>None\<close>). A missing \<open>content\<close> key is \<open>None\<close>, and so is a missing \<open>similarity\<close>.
\<close>

datatype row_metadata =
  No_Metadata | Metadata_Object "string \<rightharpoonup> string" | Metadata_Text "(string \<rightharpoonup> string) option"

record match_row =
  row_metadata :: row_metadata
  row_content :: "string option"
  row_similarity :: "rat option"

text \<open>
  What the HTTP client does with the search request: it raises (connection refused,
  timeout), or it returns a status code and a body on which \<open>resp.json()\<close> raises
  (\<open>Inl\<close>) or yields the rows.
\<close>

datatype search_reply = Transport_Error string | Http_Response int "string + match_row list"

record SupabaseVectorStore =
  embed_query :: "string \<Rightarrow> string + rat list"
  post_match_documents :: "rat list \<Rightarrow> nat \<Rightarrow> search_reply"

text \<open>One turn of the loop over the rows; \<open>None\<close> is the \<open>KeyError\<close> of \<open>row["content"]\<close>.\<close>

definition row_document :: "match_row \<Rightarrow> (Document \<times> rat) option" where
  "row_document row =
     (let metadata =
            (case row_metadata row of
               No_Metadata \<Rightarrow> Map.empty
             | Metadata_Object m \<Rightarrow> m
             | Metadata_Text None \<Rightarrow> Map.empty
             | Metadata_Text (Some m) \<Rightarrow> m)
      in case row_content row of
           None \<Rightarrow> None
         | Some c \<Rightarrow>
             Some (\<lparr>page_content = c, metadata = metadata\<rparr>,
                   case row_similarity row of None \<Rightarrow> fl 0 | Some s \<Rightarrow> s))"

fun docs_with_scores :: "match_row list \<Rightarrow> (Document \<times> rat) list option" where
  "docs_with_scores [] = Some []"
| "docs_with_scores (row # rows) =
     (case row_document row of
        None \<Rightarrow> None
      | Some d \<Rightarrow> (case docs_with_scores rows of None \<Rightarrow> None | Some ds \<Rightarrow> Some (d # ds)))"

text \<open>
  \<open>SupabaseVectorStore.similarity_search_with_relevance_scores\<close>. The embedding of the
  query stands before the \<open>try\<close>, so its exception leaves the method (\<open>Inl\<close>); every
  failure after it is logged and answered with the empty list.
\<close>

definition supabase_similarity_search ::
  "SupabaseVectorStore \<Rightarrow> string \<Rightarrow> nat \<Rightarrow> string + (Document \<times> rat) list" where
  "supabase_similarity_search store q k =
     (case embed_query store q of
        Inl e \<Rightarrow> Inl e
      | Inr query_embedding \<Rightarrow>
          (case post_match_documents store query_embedding k of
             Transport_Error e \<Rightarrow> Inr []
           | Http_Response status body \<Rightarrow>
               if status \<noteq> 200 then Inr []
               else (case body of
                       Inl e \<Rightarrow> Inr []
                     | Inr results \<Rightarrow>
                         (case docs_with_scores results of None \<Rightarrow> Inr [] | Some ds \<Rightarrow> Inr ds))))"

text \<open>
  The two backends. The local index is a library object: its search on a query and a
  count either raises or returns scored documents.
\<close>

datatype vector_store =
  Supabase SupabaseVectorStore
| Chroma "string \<Rightarrow> nat \<Rightarrow> string + (Document \<times> rat) list"

fun similarity_search_with_relevance_scores ::
  "vector_store \<Rightarrow> string \<Rightarrow> nat \<Rightarrow> string + (Document \<times> rat) list" where
  "similarity_search_with_relevance_scores (Supabase store) q k = supabase_similarity_search store q k"
| "similarity_search_with_relevance_scores (Chroma search) q k = search q k"

text \<open>
  \<open>search_knowledge_base\<close>. Its first argument is what \<open>get_vector_store()\<close> does: it
  raises (\<open>Inl\<close>, outside the \<open>try\<close>) or returns the store.
\<close>

definition search_knowledge_base ::
  "string + vector_store \<Rightarrow> string \<Rightarrow> nat \<Rightarrow> rat \<Rightarrow> string + Document list" where
  "search_knowledge_base get_vector_store q top_k score_threshold =
     (case get_vector_store of
        Inl e \<Rightarrow> Inl e
      | Inr store \<Rightarrow>
          (case similarity_search_with_relevance_scores store q top_k of
             Inl e \<Rightarrow> Inr []
           | Inr results_with_scores \<Rightarrow>
               Inr [doc. (doc, score) \<leftarrow> results_with_scores, score_threshold \<le> score]))"

section \<open>Retriever (app/nodes/retriever.py)\<close>

text \<open>
  Everything outside the pipeline that a request meets: the two number formats of the
  query text, the outcome of \<open>get_vector_store()\<close>, and the outcome of building the
  client and invoking the generative call on the prompt made from a state.
\<close>

record world =
  format_money :: "rat \<Rightarrow> string"
  format_int :: "int \<Rightarrow> string"
  get_vector_store :: "string + vector_store"
  llm_invoke :: "AgentState \<Rightarrow> string + llm_response"

definition build_query :: "world \<Rightarrow> AgentState \<Rightarrow> string" where
  "build_query w state =
     (let query_parts =
            (case profile state of
               None \<Rightarrow> []
             | Some p \<Rightarrow>
                 [''Cliente PJ segmento '' @ segment p] @
                 (if 0 < monthly_revenue p
                  then [''faturamento mensal R$'' @ format_money w (monthly_revenue p)] else []) @
                 (if 0 < credit_score p
                  then [''score de cr'' @ [CHR 0xE9] @ ''dito '' @ format_int w (credit_score p)]
                  else []));
          query_parts =
            (if query state \<noteq> [] then query_parts @ [query state]
             else query_parts @
               [''recomenda'' @ [CHR 0xE7, CHR 0xF5] @ ''es financeiras para empresa''])
      in join ''. '' query_parts)"

definition context_separator :: string where
  "context_separator = [CHR 0x0A, CHR 0x0A] @ ''---'' @ [CHR 0x0A, CHR 0x0A]"

definition retrieve_knowledge :: "world \<Rightarrow> AgentState \<Rightarrow> AgentState" where
  "retrieve_knowledge w state =
     (case search_knowledge_base (get_vector_store w) (build_query w state) 3 (fl (3 / 10)) of
        Inr results \<Rightarrow>
          state\<lparr>retrieved_context := join context_separator (map page_content results),
                rag_sources :=
                  map (\<lambda>doc. case metadata doc ''source'' of None \<Rightarrow> ''unknown'' | Some s \<Rightarrow> s)
                    results,
                tools_executed := tools_executed state @ [''rag_retrieval'']\<rparr>
      | Inl e \<Rightarrow>
          state\<lparr>retrieved_context := [],
                rag_sources := [],
                errors := errors state @ [''RAG retrieval failed: '' @ e],
                tools_executed := tools_executed state @ [''rag_retrieval_failed'']\<rparr>)"

section \<open>Analyzer (app/nodes/analyzer.py)\<close>

text \<open>
  The dictionary \<open>categories\<close> keeps its keys in insertion order: an association list
  in which a known key is updated in place and a new key goes to the end.
\<close>

fun categories_add :: "(string \<times> rat) list \<Rightarrow> string \<Rightarrow> rat \<Rightarrow> (string \<times> rat) list" where
  "categories_add [] cat v = [(cat, fadd 0 v)]"
| "categories_add ((c, s) # rest) cat v =
     (if c = cat then (c, fadd s v) # rest else (c, s) # categories_add rest cat v)"

text \<open>\<open>t.category or "uncategorized"\<close>.\<close>

definition category_key :: "Transaction \<Rightarrow> string" where
  "category_key t = (if category t \<noteq> [] then category t else ''uncategorized'')"

fun category_breakdown :: "(string \<times> rat) list \<Rightarrow> Transaction list \<Rightarrow> (string \<times> rat) list" where
  "category_breakdown cats [] = cats"
| "category_breakdown cats (t # ts) =
     (let cat = category_key t
      in category_breakdown (categories_add cats cat \<bar>amount t\<bar>) ts)"

definition compute_analysis :: "Transaction list \<Rightarrow> Analysis" where
  "compute_analysis txs =
     (let income = py_sum [amount t. t \<leftarrow> txs, 0 < amount t];
          expenses = \<bar>py_sum [amount t. t \<leftarrow> txs, amount t < 0]\<bar>;
          net = fsub income expenses;
          cats = category_breakdown [] txs;
          top = take 5 (sorted_reverse snd cats)
      in \<lparr>total_income = income,
          total_expenses = expenses,
          net_cashflow = net,
          categories = cats,
          top_categories = top,
          num_transactions = length txs,
          cashflow_positive = (0 < net),
          expense_ratio = (if 0 < income then Some (fdiv expenses income) else None)\<rparr>)"


section \<open>Synthesizer (app/nodes/synthesizer.py)\<close>

text \<open>
  Python strings are lists of code points; every character of the two fixed messages
  lies below U+0100, so one \<open>char\<close> stands for one code point.
\<close>

definition apology :: string where
  "apology = ''Desculpe, n'' @ [CHR 0xE3] @ ''o foi poss'' @ [CHR 0xED] @
     ''vel gerar uma recomenda'' @ [CHR 0xE7, CHR 0xE3] @ ''o no momento. '' @
     ''Por favor, tente novamente mais tarde.''"

definition usage_get :: "(string \<rightharpoonup> int) \<Rightarrow> string \<Rightarrow> int" where
  "usage_get usage k = (case usage k of None \<Rightarrow> 0 | Some n \<Rightarrow> n)"

definition extract_token_usage :: "llm_response \<Rightarrow> TokenUsage" where
  "extract_token_usage response =
     (case usage_metadata response of
        None \<Rightarrow> TokenUsage0
      | Some usage \<Rightarrow>
          \<lparr>prompt_tokens = usage_get usage ''prompt_tokens'',
           completion_tokens = usage_get usage ''completion_tokens'',
           total_tokens = usage_get usage ''total_tokens''\<rparr>)"

definition estimate_confidence :: "AgentState \<Rightarrow> rat" where
  "estimate_confidence state =
     (let score = fl (5 / 10);
          score = (if profile state \<noteq> None then fadd score (fl (15 / 100)) else score);
          score = (if transactions state \<noteq> [] then fadd score (fl (15 / 100)) else score);
          score = (if retrieved_context state \<noteq> [] then fadd score (fl (1 / 10)) else score);
          score = (if errors state = [] then fadd score (fl (1 / 10)) else score)
      in min score (fl 1))"

text \<open>
  The generative call is the one external effect: \<open>Inl e\<close> is an exception with text
  \<open>e\<close> raised inside the \<open>try\<close> block, \<open>Inr response\<close> a returned response. The
  function is the state after the engine merged the returned delta.
\<close>

definition synthesize_response :: "string + llm_response \<Rightarrow> AgentState \<Rightarrow> AgentState" where
  "synthesize_response llm state =
     (case llm of
        Inr response \<Rightarrow>
          state\<lparr>answer := content response,
                reasoning := Based_On (length (transactions state)) (length (rag_sources state)),
                confidence := estimate_confidence state,
                token_usage := extract_token_usage response,
                tools_executed := tools_executed state @ [''llm_synthesis'']\<rparr>
      | Inl e \<Rightarrow>
          state\<lparr>answer := apology,
                reasoning := Synthesis_Error e,
                confidence := fl 0,
                errors := errors state @ [''LLM synthesis failed: '' @ e],
                tools_executed := tools_executed state @ [''llm_synthesis_failed'']\<rparr>)"

section \<open>Boundary: result processing (app/server.py)\<close>

definition consult_advisor :: string where
  "consult_advisor = ''N'' @ [CHR 0xE3] @ ''o foi poss'' @ [CHR 0xED] @
     ''vel gerar uma recomenda'' @ [CHR 0xE7, CHR 0xE3] @ ''o completa. '' @
     ''Por favor, consulte seu gerente de relacionamento.''"

text \<open>
  Fallback detection: the confidence and the (already redacted) answer go in with the
  value of the counter \<open>FALLBACK_RATE\<close>; the answer for the response and the new counter
  value come out.
\<close>

definition fallback_detection :: "rat \<Rightarrow> string \<Rightarrow> nat \<Rightarrow> string \<times> nat" where
  "fallback_detection conf ans fallback_rate =
     (if conf < fl (3 / 10) \<or> ans = []
      then (if ans = [] then consult_advisor else ans, fallback_rate + 1)
      else (ans, fallback_rate))"

record AgentResponse =
  response_answer :: string
  response_reasoning :: reasoning_text
  sources :: "string list"
  response_confidence :: rat
  tokens_used :: TokenUsage
  response_tools_executed :: "string list"

text \<open>
  From the pipeline's result to the response. \<open>redact_pii\<close> is the regex substitution
  of app/security.py, taken as a function on texts.
\<close>

definition build_response ::
  "(string \<Rightarrow> string) \<Rightarrow> AgentState \<Rightarrow> nat \<Rightarrow> AgentResponse \<times> nat" where
  "build_response redact_pii result fallback_rate =
     (let ans = redact_pii (answer result);
          (ans, fallback_rate) = fallback_detection (confidence result) ans fallback_rate
      in (\<lparr>response_answer = ans,
           response_reasoning = reasoning result,
           sources = rag_sources result,
           response_confidence = confidence result,
           tokens_used = token_usage result,
           response_tools_executed = tools_executed result\<rparr>, fallback_rate))"

section \<open>Workflow (app/graph.py)\<close>





section \<open>Rate limiter (app/security.py)\<close>

text \<open>
  \<open>requests\<close> is the \<open>defaultdict(list)\<close>: every key has a list, empty until used.
  \<open>is_allowed\<close> reads the clock once; the reading is the argument \<open>now\<close>.
\<close>

record RateLimiter =
  max_requests :: int
  window_seconds :: int
  requests :: "string \<Rightarrow> rat list"

definition new_rate_limiter :: "int \<Rightarrow> int \<Rightarrow> RateLimiter" where
  "new_rate_limiter m w = \<lparr>max_requests = m, window_seconds = w, requests = (\<lambda>k. [])\<rparr>"

definition is_allowed :: "rat \<Rightarrow> string \<Rightarrow> RateLimiter \<Rightarrow> bool \<times> RateLimiter" where
  "is_allowed now cid rl =
     (let window_start = fsub now (fl (of_int (window_seconds rl)));
          kept = filter (\<lambda>ts. window_start < ts) (requests rl cid);
          rl = rl\<lparr>requests := (requests rl)(cid := kept)\<rparr>
      in if max_requests rl \<le> int (length (requests rl cid))
         then (False, rl)
         else (True, rl\<lparr>requests := (requests rl)(cid := requests rl cid @ [now])\<rparr>))"

text \<open>A sequence of calls, each with its clock reading and its key; the answers in order.\<close>

fun run_calls :: "(rat \<times> string) list \<Rightarrow> RateLimiter \<Rightarrow> bool list \<times> RateLimiter" where
  "run_calls [] rl = ([], rl)"
| "run_calls ((now, cid) # calls) rl =
     (let (ok, rl) = is_allowed now cid rl;
          (oks, rl) = run_calls calls rl
      in (ok # oks, rl))"

section \<open>Remote store: seeding (app/rag/supabase_store.py)\<close>

text \<open>
  The knowledge base on disk is \<open>None\<close> when its directory does not exist, and
  otherwise the markdown files as \<open>sorted(kb_path.glob("**/*.md"))\<close> lists them, each
  with its name and its text. The library functions the seeding calls are parameters:
  the two digests (as hexadecimal text), the text splitter with its fixed settings, and
  the embedding of a list of texts, which may raise.
\<close>

type_synonym knowledge_base = "(string \<times> string) list option"

record library =
  sha256_hexdigest :: "string \<Rightarrow> string"
  md5_hexdigest :: "string \<Rightarrow> string"
  split_text :: "string \<Rightarrow> string list"
  embed_documents :: "string list \<Rightarrow> string + rat list list"

text \<open>
  The rows of the table \<open>documents\<close> and the five requests the store sends:
  \<^item> \<open>Select_Content id\<close>: GET \<open>documents?id=eq.id&select=content\<close>;
  \<^item> \<open>Select_Ids_Counted\<close>: GET \<open>documents?select=id\<close> with \<open>Prefer: count=exact\<close>;
  \<^item> \<open>Delete_Id_Not v\<close>: DELETE \<open>documents?id=neq.v\<close>;
  \<^item> \<open>Delete_Id_Not_Null\<close>: DELETE \<open>documents?id=not.is.null\<close>;
  \<^item> \<open>Upsert rows\<close>: POST \<open>documents\<close> with \<open>Prefer: resolution=merge-duplicates\<close>.

  A request raises in the client (\<open>No_Reply\<close>: no connection, timeout, a body that
  is not JSON), or it is answered with a status code, the rows of the body and, when the
  \<open>content-range\<close> header carries one after its slash, the total count.
\<close>

record document_row =
  doc_id :: string
  doc_content :: string
  doc_metadata :: "string \<rightharpoonup> string"
  doc_embedding :: "rat list"

datatype request =
  Select_Content string
| Select_Ids_Counted
| Delete_Id_Not string
| Delete_Id_Not_Null
| Upsert "document_row list"

datatype http_reply = No_Reply string | Reply int "document_row list" "nat option"

text \<open>
  A server answers a request in a state and moves to a new state. The store's side of
  the conversation is the server's state together with the requests sent so far.
\<close>

type_synonym 's server = "request \<Rightarrow> 's \<Rightarrow> http_reply \<times> 's"

definition send :: "'s server \<Rightarrow> request \<Rightarrow> 's \<times> request list \<Rightarrow> http_reply \<times> ('s \<times> request list)" where
  "send srv req r = (case srv req (fst r) of (reply, db) \<Rightarrow> (reply, (db, snd r @ [req])))"






text \<open>\<open>rows[i : i + 50]\<close> for \<open>i\<close> in \<open>range(0, len(rows), 50)\<close>.\<close>

definition batches :: "'a list \<Rightarrow> 'a list list" where
  "batches rows = map (\<lambda>j. take 50 (drop (j * 50) rows)) [0..<(length rows + 49) div 50]"

definition document_rows :: "library \<Rightarrow> Document list \<Rightarrow> rat list list \<Rightarrow> document_row list" where
  "document_rows lib documents embeddings =
     map (\<lambda>(doc, embedding).
            \<lparr>doc_id = md5_hexdigest lib (page_content doc), doc_content = page_content doc,
             doc_metadata = metadata doc, doc_embedding = embedding\<rparr>)
         (zip documents embeddings)"

text \<open>The loop over the batches, with the count of inserted rows.\<close>

fun post_batches ::
  "'s server \<Rightarrow> document_row list list \<Rightarrow> nat \<Rightarrow> 's \<times> request list \<Rightarrow> nat \<times> ('s \<times> request list)" where
  "post_batches srv [] inserted r = (inserted, r)"
| "post_batches srv (batch # rest) inserted r =
     (case send srv (Upsert batch) r of
        (No_Reply e, r) \<Rightarrow> post_batches srv rest inserted r
      | (Reply status data range_total, r) \<Rightarrow>
          if status = 200 \<or> status = 201
          then post_batches srv rest (inserted + length batch) r
          else post_batches srv rest inserted r)"

text \<open>
  \<open>add_documents\<close>. The embedding is computed outside any \<open>try\<close>: when it raises, the
  exception leaves the method (\<open>Inl\<close>).
\<close>

definition add_documents ::
  "library \<Rightarrow> 's server \<Rightarrow> Document list \<Rightarrow> 's \<times> request list \<Rightarrow> (string + nat) \<times> ('s \<times> request list)" where
  "add_documents lib srv documents r =
     (if documents = [] then (Inr 0, r)
      else (case embed_documents lib (map page_content documents) of
              Inl e \<Rightarrow> (Inl e, r)
            | Inr embeddings \<Rightarrow>
                (case post_batches srv (batches (document_rows lib documents embeddings)) 0 r of
                   (inserted, r) \<Rightarrow> (Inr inserted, r))))"

definition kb_documents :: "library \<Rightarrow> (string \<times> string) list \<Rightarrow> Document list" where
  "kb_documents lib files =
     concat (map (\<lambda>(file_name, text).
                    map (\<lambda>chunk. \<lparr>page_content = chunk, metadata = [''source'' \<mapsto> file_name]\<rparr>)
                        (split_text lib text))
                 files)"

definition seed_knowledge_base ::
  "library \<Rightarrow> 's server \<Rightarrow> knowledge_base \<Rightarrow> 's \<times> request list \<Rightarrow> (string + unit) \<times> ('s \<times> request list)" where
  "seed_knowledge_base lib srv kb r =
     (case kb of
        None \<Rightarrow> (Inr (), r)
      | Some files \<Rightarrow>
          (let documents = kb_documents lib files
           in if documents \<noteq> []
              then (case add_documents lib srv documents r of
                      (Inl e, r) \<Rightarrow> (Inl e, r)
                    | (Inr inserted, r) \<Rightarrow> (Inr (), r))
              else (Inr (), r)))"




text \<open>
  Modelled from the spec: the remote table of section 6, "a row-oriented table keyed by
  a content hash id, storing content text, a metadata blob, and an embedding vector"
  (its SQL migration is not among the source files), behind a REST server that is
  reachable and reports exact counts. A row is inserted at the end or replaces the row
  of its id; one upsert request with two rows of one id is refused as a whole, as the
  database refuses to touch a row twice in one statement.
\<close>

fun upsert_row :: "document_row list \<Rightarrow> document_row \<Rightarrow> document_row list" where
  "upsert_row [] row = [row]"
| "upsert_row (old # table) row =
     (if doc_id old = doc_id row then row # table else old # upsert_row table row)"







section \<open>The inputs of the repository's tests\<close>

text \<open>The profile of tests/test_planner.py and the transactions of tests/test_analyzer.py.\<close>

definition test_profile :: CustomerProfile where
  "test_profile =
     \<lparr>profile_customer_id = ''cust-123'', name = ''Test'', document = ''12345'',
      segment = ''middle'', monthly_revenue = 0, account_age_months = 0, credit_score = 0\<rparr>"

definition test_transactions :: "Transaction list" where
  "test_transactions =
     [\<lparr>tx_id = ''1'', date = ''2025-01-01'', amount = 5000, tx_type = ''credit'',
       category = ''revenue'', description = []\<rparr>,
      \<lparr>tx_id = ''2'', date = ''2025-01-02'', amount = - 2000, tx_type = ''debit'',
       category = ''supplier'', description = []\<rparr>,
      \<lparr>tx_id = ''3'', date = ''2025-01-03'', amount = - 500, tx_type = ''debit'',
       category = ''utilities'', description = []\<rparr>]"

definition test_state :: AgentState where
  "test_state = initial_state ''cust-123'' (Some test_profile) test_transactions []"

definition bare_state :: AgentState where
  "bare_state = initial_state ''cust-123'' None [] []"

text \<open>
  Seven transactions in six categories, with equal volumes among them and one
  transaction without a category.
\<close>

definition transaction_of :: "string \<Rightarrow> rat \<Rightarrow> string \<Rightarrow> Transaction" where
  "transaction_of i a c =
     \<lparr>tx_id = i, date = ''2025-01-01'', amount = a,
      tx_type = (if 0 < a then ''credit'' else ''debit''), category = c, description = []\<rparr>"


text \<open>Three transactions of one category with the amounts 0.1, -0.2 and -0.3, as floats.\<close>

definition rounding_transactions :: "Transaction list" where
  "rounding_transactions =
     [transaction_of ''1'' (fl (1 / 10)) ''supplier'',
      transaction_of ''2'' (- fl (2 / 10)) ''supplier'',
      transaction_of ''3'' (- fl (3 / 10)) ''supplier'']"

section \<open>Worlds for concrete runs\<close>

text \<open>
  A remote store whose server cannot be reached, a local index that answers with one
  relevant and one irrelevant chunk, a generative call that answers and one that times
  out.
\<close>

definition unreachable_store :: vector_store where
  "unreachable_store =
     Supabase \<lparr>embed_query = (\<lambda>q. Inr []),
               post_match_documents = (\<lambda>v k. Transport_Error ''connection refused'')\<rparr>"

definition credit_chunk :: Document where
  "credit_chunk = \<lparr>page_content = ''Capital de giro'', metadata = [''source'' \<mapsto> ''credito.md'']\<rparr>"

definition other_chunk :: Document where
  "other_chunk = \<lparr>page_content = ''Seguros'', metadata = Map.empty\<rparr>"

definition local_index :: vector_store where
  "local_index = Chroma (\<lambda>q k. Inr [(credit_chunk, 3 / 4), (other_chunk, 1 / 4)])"




section \<open>Rounding facts\<close>

text \<open>
  The binary64 values of the decimal literals and of the sums the confidence estimate
  can form, each computed by the kernel from the definition of \<open>fl\<close>.
\<close>

lemma fl_zero: "fl 0 = 0"
  by (simp add: fl_def)

lemma fl_half: "fl (1 / 2) = 1 / 2"
  by code_simp

lemma fl_one: "fl 1 = 1"
  by code_simp

lemma fl_015: "fl (3 / 20) = 5404319552844595 / 36028797018963968"
  by code_simp

lemma fl_01: "fl (1 / 10) = 3602879701896397 / 36028797018963968"
  by code_simp

lemma fl_03: "fl (3 / 10) = 5404319552844595 / 18014398509481984"
  by code_simp

lemma confidence_sums:
  "fadd (1 / 2) (5404319552844595 / 36028797018963968) = 5854679515581645 / 9007199254740992"
  "fadd (5854679515581645 / 9007199254740992) (5404319552844595 / 36028797018963968) =
     3602879701896397 / 4503599627370496"
  "fadd (1 / 2) (3602879701896397 / 36028797018963968) = 5404319552844595 / 9007199254740992"
  "fadd (5404319552844595 / 9007199254740992) (3602879701896397 / 36028797018963968) =
     3152519739159347 / 4503599627370496"
  "fadd (5854679515581645 / 9007199254740992) (3602879701896397 / 36028797018963968) = 3 / 4"
  "fadd (3 / 4) (3602879701896397 / 36028797018963968) = 7656119366529843 / 9007199254740992"
  "fadd (3602879701896397 / 4503599627370496) (3602879701896397 / 36028797018963968) =
     8106479329266893 / 9007199254740992"
  "fadd (8106479329266893 / 9007199254740992) (3602879701896397 / 36028797018963968) = 1"
  by code_simp+

lemma confidence_roundings:
  "fl (13 / 20) = 5854679515581645 / 9007199254740992"
  "fl (4 / 5) = 3602879701896397 / 4503599627370496"
  "fl (3 / 5) = 5404319552844595 / 9007199254740992"
  "fl (7 / 10) = 3152519739159347 / 4503599627370496"
  "fl (3 / 4) = 3 / 4"
  "fl (17 / 20) = 7656119366529843 / 9007199254740992"
  "fl (9 / 10) = 8106479329266893 / 9007199254740992"
  by code_simp+

lemmas confidence_values = fl_half fl_one fl_015 fl_01 confidence_sums confidence_roundings

section \<open>Planner: properties\<close>

text \<open>
  C3. For every request state the plan produced by the Planner contains
  "retrieve_knowledge", and it contains "analyze_financials" if and only if the
  transaction list is non-empty. The Planner is a total function of the state alone
  (deterministic, no failure branch): its plan is one of two fixed lists, chosen by the
  emptiness of the transaction list.
\<close>

theorem C3_plan_steps:
  "''retrieve_knowledge'' \<in> set (plan_steps state) \<and>
   ((''analyze_financials'' \<in> set (plan_steps state)) = (transactions state \<noteq> [])) \<and>
   plan_steps state =
     (if transactions state = [] then [''retrieve_knowledge'']
      else [''retrieve_knowledge'', ''analyze_financials'']) \<and>
   plan (planner state) = plan_steps state"
  by (simp add: plan_steps_def planner_def)

section \<open>Synthesizer: properties\<close>

lemma estimate_confidence_exact:
  "estimate_confidence state =
     fl (min 1 (5 / 10 + (if profile state \<noteq> None then 15 / 100 else 0)
                       + (if transactions state \<noteq> [] then 15 / 100 else 0)
                       + (if retrieved_context state \<noteq> [] then 10 / 100 else 0)
                       + (if errors state = [] then 10 / 100 else 0)))"
  unfolding estimate_confidence_def Let_def
  by (simp add: confidence_values)

lemma estimate_confidence_bounds:
  "1 / 2 \<le> estimate_confidence state \<and> estimate_confidence state \<le> 1"
  unfolding estimate_confidence_def Let_def
  by (simp add: confidence_values)

text \<open>
  C2. The synthesizer's confidence score is 0.5 plus 0.15 if a profile is present, plus
  0.15 if the transaction list is non-empty, plus 0.10 if the retrieved context is
  non-empty, plus 0.10 if the error list is empty, clamped to at most 1.0: the float the
  code computes is the binary64 number nearest to that decimal value. Hence it lies in
  [0, 1] for every state, is exactly 1 when all four conditions hold, and exactly 0.5
  when none holds.
\<close>

theorem C2_estimate_confidence:
  "estimate_confidence state =
     fl (min 1 (5 / 10 + (if profile state \<noteq> None then 15 / 100 else 0)
                       + (if transactions state \<noteq> [] then 15 / 100 else 0)
                       + (if retrieved_context state \<noteq> [] then 10 / 100 else 0)
                       + (if errors state = [] then 10 / 100 else 0))) \<and>
   0 \<le> estimate_confidence state \<and> estimate_confidence state \<le> 1 \<and>
   (profile state \<noteq> None \<and> transactions state \<noteq> [] \<and> retrieved_context state \<noteq> [] \<and>
      errors state = [] \<longrightarrow> estimate_confidence state = 1) \<and>
   (profile state = None \<and> transactions state = [] \<and> retrieved_context state = [] \<and>
      errors state \<noteq> [] \<longrightarrow> estimate_confidence state = 1 / 2)"
proof -
  have exact: "estimate_confidence state =
     fl (min 1 (5 / 10 + (if profile state \<noteq> None then 15 / 100 else 0)
                       + (if transactions state \<noteq> [] then 15 / 100 else 0)
                       + (if retrieved_context state \<noteq> [] then 10 / 100 else 0)
                       + (if errors state = [] then 10 / 100 else 0)))"
    by (rule estimate_confidence_exact)
  have bounds: "0 \<le> estimate_confidence state \<and> estimate_confidence state \<le> 1"
    using estimate_confidence_bounds [of state] by simp
  have top: "estimate_confidence state = 1"
    if "profile state \<noteq> None \<and> transactions state \<noteq> [] \<and> retrieved_context state \<noteq> [] \<and>
        errors state = []"
    using that by (simp add: exact fl_one)
  have base: "estimate_confidence state = 1 / 2"
    if "profile state = None \<and> transactions state = [] \<and> retrieved_context state = [] \<and>
        errors state \<noteq> []"
    using that by (simp add: exact fl_half)
  from exact bounds top base show ?thesis by blast
qed

theorem C2_estimate_confidence_witness:
  "estimate_confidence (test_state\<lparr>retrieved_context := ''Capital de giro''\<rparr>) = 1 \<and>
   estimate_confidence (bare_state\<lparr>errors := [''RAG retrieval failed: timeout'']\<rparr>) = 1 / 2"
  using C2_estimate_confidence [of "test_state\<lparr>retrieved_context := ''Capital de giro''\<rparr>"]
    C2_estimate_confidence [of "bare_state\<lparr>errors := [''RAG retrieval failed: timeout'']\<rparr>"]
  by (simp add: test_state_def bare_state_def initial_state_def test_transactions_def)


lemma synthesize_failure:
  "synthesize_response (Inl e) state =
     state\<lparr>answer := apology, reasoning := Synthesis_Error e, confidence := 0,
            errors := errors state @ [''LLM synthesis failed: '' @ e],
            tools_executed := tools_executed state @ [''llm_synthesis_failed'']\<rparr>"
  by (simp add: synthesize_response_def fl_zero)

lemma threshold_below_half: "fl (3 / 10) < 1 / 2" "0 < fl (3 / 10)"
  by (simp_all add: fl_03)





section \<open>Boundary: properties\<close>

lemma apology_differs: "apology \<noteq> consult_advisor" "apology \<noteq> []" "consult_advisor \<noteq> []"
  by (simp_all add: apology_def consult_advisor_def)

text \<open>
  C1 as stated fails. The claim: whenever the final confidence is below 0.3 or the
  answer is empty, the caller-visible answer is replaced by the consult-an-advisor
  message, also when the confidence is below 0.3 and the answer is non-empty. The result
  of the synthesizer's failure branch has confidence 0 and the non-empty apology as its
  answer; fallback detection counts it and leaves the answer as it is.
\<close>

theorem C1_counterexample:
  "confidence (synthesize_response (Inl ''timeout'') test_state) < fl (3 / 10) \<and>
   answer (synthesize_response (Inl ''timeout'') test_state) \<noteq> [] \<and>
   fst (fallback_detection (confidence (synthesize_response (Inl ''timeout'') test_state))
          (answer (synthesize_response (Inl ''timeout'') test_state)) 0) \<noteq> consult_advisor \<and>
   fallback_detection 0 apology 0 = (apology, 1)"
  by (simp add: synthesize_failure fallback_detection_def apology_differs threshold_below_half)

text \<open>
  C1, amended. For every pipeline result, the fallback counter is incremented exactly
  when the final confidence is below 0.3 or the redacted answer is empty, and the
  caller-visible answer is the consult-an-advisor message exactly when the redacted
  answer is empty; a non-empty answer is returned as redacted, whatever the confidence.
  The other fields of the response are those of the result.
\<close>

theorem C1_fallback_detection:
  "fallback_detection conf ans n =
     (if ans = [] then consult_advisor else ans,
      if conf < fl (3 / 10) \<or> ans = [] then n + 1 else n) \<and>
   build_response redact_pii result n =
     (\<lparr>response_answer =
          (if redact_pii (answer result) = [] then consult_advisor else redact_pii (answer result)),
       response_reasoning = reasoning result,
       sources = rag_sources result,
       response_confidence = confidence result,
       tokens_used = token_usage result,
       response_tools_executed = tools_executed result\<rparr>,
      if confidence result < fl (3 / 10) \<or> redact_pii (answer result) = [] then n + 1 else n)"
  by (simp add: fallback_detection_def build_response_def Let_def)

theorem C1_fallback_detection_witness:
  "fallback_detection 0 [] 4 = (consult_advisor, 5) \<and>
   fallback_detection 0 apology 4 = (apology, 5) \<and>
   fallback_detection 1 ''Mantenha o capital de giro.'' 4 = (''Mantenha o capital de giro.'', 4) \<and>
   response_answer (fst (build_response (\<lambda>text. text) bare_state 4)) = consult_advisor \<and>
   snd (build_response (\<lambda>text. text) bare_state 4) = 5"
  using C1_fallback_detection [of 0 "[]" 4 "\<lambda>text. text" bare_state]
    C1_fallback_detection [of 0 apology 4 "\<lambda>text. text" bare_state]
    C1_fallback_detection [of 1 "''Mantenha o capital de giro.''" 4 "\<lambda>text. text" bare_state]
  by (simp add: apology_differs threshold_below_half fl_03 bare_state_def initial_state_def)

section \<open>Knowledge store: properties\<close>

lemma filtered_docs:
  "[doc. (doc, score) \<leftarrow> rs, th \<le> score] = map fst (filter (\<lambda>p. th \<le> snd p) rs)"
  by (induction rs) (auto split: prod.splits)

lemma search_with_store:
  "search_knowledge_base (Inr store) q k th =
     Inr (case similarity_search_with_relevance_scores store q k of
            Inl e \<Rightarrow> []
          | Inr rs \<Rightarrow> map fst (filter (\<lambda>p. th \<le> snd p) rs))"
  by (simp add: search_knowledge_base_def filtered_docs split: sum.splits)

text \<open>
  C5. For every store, query, count and threshold, the knowledge-base search on an
  obtained store returns a list, never an error. When the backend answered with scored
  candidates, the result is the candidates whose score is at least the threshold, in the
  backend's order: every returned document has a relevance score greater than or equal
  to the threshold, and when no candidate clears the threshold the result is the empty
  list. A backend that raises is answered with the empty list as well. The Retriever
  calls the search with the default threshold, the float 0.3.
\<close>

theorem C5_search_threshold:
  "(\<exists>docs. search_knowledge_base (Inr store) q k th = Inr docs) \<and>
   (similarity_search_with_relevance_scores store q k = Inr results \<longrightarrow>
      search_knowledge_base (Inr store) q k th =
        Inr (map fst (filter (\<lambda>p. th \<le> snd p) results)) \<and>
      (\<forall>docs. search_knowledge_base (Inr store) q k th = Inr docs \<longrightarrow>
         (\<forall>d \<in> set docs. \<exists>s. (d, s) \<in> set results \<and> th \<le> s)) \<and>
      ((\<forall>p \<in> set results. snd p < th) \<longrightarrow>
         search_knowledge_base (Inr store) q k th = Inr [])) \<and>
   (similarity_search_with_relevance_scores store q k = Inl e \<longrightarrow>
      search_knowledge_base (Inr store) q k th = Inr [])"
proof -
  have total: "\<exists>docs. search_knowledge_base (Inr store) q k th = Inr docs"
    by (simp add: search_with_store)
  have raised: "search_knowledge_base (Inr store) q k th = Inr []"
    if "similarity_search_with_relevance_scores store q k = Inl e"
    using that by (simp add: search_with_store)
  have returned: "search_knowledge_base (Inr store) q k th =
      Inr (map fst (filter (\<lambda>p. th \<le> snd p) results))"
    if "similarity_search_with_relevance_scores store q k = Inr results"
    using that by (simp add: search_with_store)
  have scores: "\<exists>s. (d, s) \<in> set results \<and> th \<le> s"
    if "similarity_search_with_relevance_scores store q k = Inr results"
      and "search_knowledge_base (Inr store) q k th = Inr docs" and "d \<in> set docs" for docs d
  proof -
    from that returned have "d \<in> fst ` set (filter (\<lambda>p. th \<le> snd p) results)"
      by auto
    then obtain p where "p \<in> set results" "th \<le> snd p" "d = fst p"
      by auto
    then have "(d, snd p) \<in> set results \<and> th \<le> snd p"
      by simp
    then show ?thesis by blast
  qed
  have none: "search_knowledge_base (Inr store) q k th = Inr []"
    if "similarity_search_with_relevance_scores store q k = Inr results"
      and "\<forall>p \<in> set results. snd p < th"
  proof -
    from that(2) have "filter (\<lambda>p. th \<le> snd p) results = []"
      by (auto simp: filter_empty_conv)
    with returned [OF that(1)] show ?thesis by simp
  qed
  from total raised returned scores none show ?thesis by blast
qed

lemma local_index_results:
  "similarity_search_with_relevance_scores local_index q k =
     Inr [(credit_chunk, 3 / 4), (other_chunk, 1 / 4)]"
  by (simp add: local_index_def)

theorem C5_search_threshold_witness:
  "search_knowledge_base (Inr local_index) ''capital'' 3 (fl (3 / 10)) = Inr [credit_chunk] \<and>
   (credit_chunk, 3 / 4) \<in> set [(credit_chunk, 3 / 4), (other_chunk, 1 / 4 :: rat)] \<and>
   fl (3 / 10) \<le> 3 / 4 \<and>
   search_knowledge_base (Inr local_index) ''capital'' 3 1 = Inr [] \<and>
   search_knowledge_base (Inr unreachable_store) ''capital'' 3 (fl (3 / 10)) = Inr []"
proof -
  have r: "similarity_search_with_relevance_scores local_index ''capital'' 3 =
      Inr [(credit_chunk, 3 / 4), (other_chunk, 1 / 4)]"
    by (rule local_index_results)
  have u: "similarity_search_with_relevance_scores unreachable_store ''capital'' 3 = Inr []"
    by (simp add: unreachable_store_def supabase_similarity_search_def)
  have low: "\<forall>p \<in> set [(credit_chunk, 3 / 4), (other_chunk, 1 / 4 :: rat)]. snd p < 1"
    by simp
  from C5_search_threshold [where store = local_index and q = "''capital''" and k = 3
      and th = "fl (3 / 10)" and results = "[(credit_chunk, 3 / 4), (other_chunk, 1 / 4)]"] r
  have a: "search_knowledge_base (Inr local_index) ''capital'' 3 (fl (3 / 10)) = Inr [credit_chunk]"
    by (simp add: fl_03)
  from C5_search_threshold [where store = local_index and q = "''capital''" and k = 3
      and th = 1 and results = "[(credit_chunk, 3 / 4), (other_chunk, 1 / 4)]"] r low
  have b: "search_knowledge_base (Inr local_index) ''capital'' 3 1 = Inr []"
    by blast
  from C5_search_threshold [where store = unreachable_store and q = "''capital''" and k = 3
      and th = "fl (3 / 10)" and results = "[]"] u
  have c: "search_knowledge_base (Inr unreachable_store) ''capital'' 3 (fl (3 / 10)) = Inr []"
    by simp
  from a b c show ?thesis by (simp add: fl_03)
qed

section \<open>Retriever: properties\<close>


lemma retrieve_with_store:
  "get_vector_store w = Inr store \<Longrightarrow>
   search_knowledge_base (Inr store) (build_query w state) 3 (fl (3 / 10)) = Inr results \<Longrightarrow>
   retrieve_knowledge w state =
     state\<lparr>retrieved_context := join context_separator (map page_content results),
            rag_sources :=
              map (\<lambda>doc. case metadata doc ''source'' of None \<Rightarrow> ''unknown'' | Some s \<Rightarrow> s) results,
            tools_executed := tools_executed state @ [''rag_retrieval'']\<rparr>"
  by (simp add: retrieve_knowledge_def)







section \<open>Rate limiter: properties\<close>

lemma is_allowed_in_window:
  assumes "\<forall>ts \<in> set (requests rl cid). fsub now (fl (of_int (window_seconds rl))) < ts"
  shows "is_allowed now cid rl =
     (if max_requests rl \<le> int (length (requests rl cid)) then (False, rl)
      else (True, rl\<lparr>requests := (requests rl)(cid := requests rl cid @ [now])\<rparr>))"
proof -
  from assms have "filter (\<lambda>ts. fsub now (fl (of_int (window_seconds rl))) < ts) (requests rl cid)
      = requests rl cid"
    by (simp add: filter_id_conv)
  then show ?thesis
    by (simp add: is_allowed_def Let_def)
qed

lemma is_allowed_frame:
  "max_requests (snd (is_allowed now cid rl)) = max_requests rl \<and>
   window_seconds (snd (is_allowed now cid rl)) = window_seconds rl \<and>
   (cid' \<noteq> cid \<longrightarrow> requests (snd (is_allowed now cid rl)) cid' = requests rl cid')"
  by (simp add: is_allowed_def Let_def)

lemma is_allowed_own_key:
  "requests rl cid = requests rl' cid \<Longrightarrow> max_requests rl = max_requests rl' \<Longrightarrow>
   window_seconds rl = window_seconds rl' \<Longrightarrow>
   fst (is_allowed now cid rl) = fst (is_allowed now cid rl')"
  by (simp add: is_allowed_def Let_def)

lemma run_calls_length: "length (fst (run_calls calls rl)) = length calls"
proof (induction calls arbitrary: rl)
  case Nil
  then show ?case by simp
next
  case (Cons c calls)
  obtain now cid where c: "c = (now, cid)" by (cases c)
  obtain ok rl' where r: "is_allowed now cid rl = (ok, rl')" by fastforce
  obtain oks rl'' where rs: "run_calls calls rl' = (oks, rl'')" by fastforce
  from Cons.IH [of rl'] rs have "length oks = length calls" by simp
  then show ?case using c r rs by simp
qed

lemma run_calls_nth:
  assumes "\<forall>c \<in> set calls. \<forall>ts \<in> set (requests rl (snd c)).
             fsub (fst c) (fl (of_int (window_seconds rl))) < ts"
    and "\<forall>j < length calls. \<forall>i < j. snd (calls ! i) = snd (calls ! j) \<longrightarrow>
             fsub (fst (calls ! j)) (fl (of_int (window_seconds rl))) < fst (calls ! i)"
    and "j < length calls"
  shows "fst (run_calls calls rl) ! j =
     (int (length (requests rl (snd (calls ! j)))) +
      int (length (filter (\<lambda>c. snd c = snd (calls ! j)) (take j calls))) < max_requests rl)"
  using assms
proof (induction calls arbitrary: rl j)
  case Nil
  then show ?case by simp
next
  case (Cons c calls)
  obtain now cid where c: "c = (now, cid)" by (cases c)
  let ?W = "fl (of_int (window_seconds rl))"
  have inw: "\<forall>ts \<in> set (requests rl cid). fsub now ?W < ts"
    using Cons.prems(1) c by simp
  note step = is_allowed_in_window [OF inw]
  obtain ok rl' where r: "is_allowed now cid rl = (ok, rl')" by fastforce
  have ok: "ok = (int (length (requests rl cid)) < max_requests rl)"
    using r step by (auto split: if_splits)
  have rl': "max_requests rl' = max_requests rl" "window_seconds rl' = window_seconds rl"
    "\<And>k. k \<noteq> cid \<Longrightarrow> requests rl' k = requests rl k"
    "requests rl' cid = (if ok then requests rl cid @ [now] else requests rl cid)"
    using r step by (auto split: if_splits)
  show ?case
  proof (cases j)
    case 0
    then show ?thesis using r ok c by (simp add: Let_def split: prod.splits)
  next
    case (Suc j')
    then have j': "j' < length calls" using Cons.prems(3) by simp
    have p1: "\<forall>d \<in> set calls. \<forall>ts \<in> set (requests rl' (snd d)).
             fsub (fst d) (fl (of_int (window_seconds rl'))) < ts"
    proof (intro ballI)
      fix d ts assume d: "d \<in> set calls" and ts: "ts \<in> set (requests rl' (snd d))"
      show "fsub (fst d) (fl (of_int (window_seconds rl'))) < ts"
      proof (cases "ts \<in> set (requests rl (snd d))")
        case True
        then show ?thesis using Cons.prems(1) d rl'(2) by simp
      next
        case False
        have key: "snd d = cid"
        proof (rule ccontr)
          assume "snd d \<noteq> cid"
          then have "requests rl' (snd d) = requests rl (snd d)" by (rule rl'(3))
          with ts False show False by simp
        qed
        have eq: "snd d = cid" "ts = now"
          using key ts False rl'(4) by (auto split: if_splits)
        from d obtain i where i: "i < length calls" "calls ! i = d"
          by (auto simp: in_set_conv_nth)
        from Cons.prems(2) [rule_format, of "Suc i" 0] i eq c
        show ?thesis by (simp add: rl'(2))
      qed
    qed
    have p2: "\<forall>j < length calls. \<forall>i < j. snd (calls ! i) = snd (calls ! j) \<longrightarrow>
             fsub (fst (calls ! j)) (fl (of_int (window_seconds rl'))) < fst (calls ! i)"
    proof (intro allI impI)
      fix a b assume "a < length calls" "b < a" "snd (calls ! b) = snd (calls ! a)"
      with Cons.prems(2) [rule_format, of "Suc a" "Suc b"] show
        "fsub (fst (calls ! a)) (fl (of_int (window_seconds rl'))) < fst (calls ! b)"
        by (simp add: rl'(2))
    qed
    from Cons.IH [OF p1 p2 j']
    have IH: "fst (run_calls calls rl') ! j' =
       (int (length (requests rl' (snd (calls ! j')))) +
        int (length (filter (\<lambda>c. snd c = snd (calls ! j')) (take j' calls))) < max_requests rl)"
      by (simp add: rl'(1))
    have res: "fst (run_calls (c # calls) rl) ! j = fst (run_calls calls rl') ! j'"
      using r c Suc by (simp add: Let_def split: prod.splits)
    show ?thesis
    proof (cases "snd (calls ! j') = cid")
      case True
      then show ?thesis
        using IH res ok rl'(4) c Suc by (auto split: if_splits)
    next
      case False
      then show ?thesis
        using IH res rl'(3) [of "snd (calls ! j')"] c Suc by auto
    qed
  qed
qed


text \<open>
  C9. Calls lie within a single sliding window when, at each call, every earlier call
  of the same key is younger than the window: the window start the limiter computes,
  \<open>now - window_seconds\<close> in floats, is below the earlier call's clock reading. For
  such a sequence of calls on a fresh limiter, a call is allowed exactly when fewer than
  \<open>max_requests\<close> earlier calls carried its key. So for every key exactly the first
  \<open>max_requests\<close> calls succeed and the next one is refused (for calls of one key the
  answers are \<open>True\<close> up to index \<open>max_requests\<close> and \<open>False\<close> from there), and
  the calls of other keys do not count: a call leaves the history of every other key as
  it was, and its answer depends on the history of its own key only.
\<close>

theorem C9_rate_limiter:
  assumes "\<forall>j < length calls. \<forall>i < j. snd (calls ! i) = snd (calls ! j) \<longrightarrow>
             fsub (fst (calls ! j)) (fl (of_int w)) < fst (calls ! i)"
  shows "length (fst (run_calls calls (new_rate_limiter m w))) = length calls \<and>
    (\<forall>j < length calls.
       fst (run_calls calls (new_rate_limiter m w)) ! j =
         (int (length (filter (\<lambda>c. snd c = snd (calls ! j)) (take j calls))) < m)) \<and>
    ((\<forall>c \<in> set calls. snd c = k) \<longrightarrow>
       fst (run_calls calls (new_rate_limiter m w)) = map (\<lambda>j. int j < m) [0..<length calls]) \<and>
    (cid' \<noteq> cid \<longrightarrow> requests (snd (is_allowed now cid rl)) cid' = requests rl cid') \<and>
    (requests rl cid = requests rl' cid \<and> max_requests rl = max_requests rl' \<and>
     window_seconds rl = window_seconds rl' \<longrightarrow>
       fst (is_allowed now cid rl) = fst (is_allowed now cid rl'))"
proof -
  let ?rl = "new_rate_limiter m w"
  let ?res = "fst (run_calls calls ?rl)"
  have fresh: "\<forall>c \<in> set calls. \<forall>ts \<in> set (requests ?rl (snd c)).
      fsub (fst c) (fl (of_int (window_seconds ?rl))) < ts"
    by (simp add: new_rate_limiter_def)
  have win: "\<forall>j < length calls. \<forall>i < j. snd (calls ! i) = snd (calls ! j) \<longrightarrow>
      fsub (fst (calls ! j)) (fl (of_int (window_seconds ?rl))) < fst (calls ! i)"
    using assms by (simp add: new_rate_limiter_def)
  have len: "length ?res = length calls"
    by (rule run_calls_length)
  have nth: "?res ! j = (int (length (filter (\<lambda>c. snd c = snd (calls ! j)) (take j calls))) < m)"
    if "j < length calls" for j
    using run_calls_nth [OF fresh win that] by (simp add: new_rate_limiter_def)
  have one_key: "?res = map (\<lambda>j. int j < m) [0..<length calls]"
    if all: "\<forall>c \<in> set calls. snd c = k"
  proof (rule nth_equalityI)
    show "length ?res = length (map (\<lambda>j. int j < m) [0..<length calls])"
      using len by simp
  next
    fix j assume "j < length ?res"
    then have j: "j < length calls" using len by simp
    have "\<forall>c \<in> set (take j calls). snd c = snd (calls ! j)"
    proof
      fix c assume "c \<in> set (take j calls)"
      then have "c \<in> set calls" by (rule in_set_takeD)
      with all j show "snd c = snd (calls ! j)" by simp
    qed
    then have "filter (\<lambda>c. snd c = snd (calls ! j)) (take j calls) = take j calls"
      by (simp add: filter_id_conv)
    then show "?res ! j = map (\<lambda>j. int j < m) [0..<length calls] ! j"
      using nth [OF j] j by simp
  qed
  have frame: "requests (snd (is_allowed now cid rl)) cid' = requests rl cid'" if "cid' \<noteq> cid"
    using that is_allowed_frame [of now cid rl cid'] by simp
  have own: "fst (is_allowed now cid rl) = fst (is_allowed now cid rl')"
    if "requests rl cid = requests rl' cid \<and> max_requests rl = max_requests rl' \<and>
        window_seconds rl = window_seconds rl'"
    using that by (intro is_allowed_own_key) simp_all
  show ?thesis
  proof (intro conjI)
    show "length ?res = length calls" by (rule len)
    show "\<forall>j < length calls.
       ?res ! j = (int (length (filter (\<lambda>c. snd c = snd (calls ! j)) (take j calls))) < m)"
      using nth by blast
    show "(\<forall>c \<in> set calls. snd c = k) \<longrightarrow> ?res = map (\<lambda>j. int j < m) [0..<length calls]"
      using one_key by blast
    show "cid' \<noteq> cid \<longrightarrow> requests (snd (is_allowed now cid rl)) cid' = requests rl cid'"
      using frame by blast
    show "requests rl cid = requests rl' cid \<and> max_requests rl = max_requests rl' \<and>
        window_seconds rl = window_seconds rl' \<longrightarrow>
        fst (is_allowed now cid rl) = fst (is_allowed now cid rl')"
      using own by blast
  qed
qed



lemma fl_window_examples:
  "fsub 1001 (fl 60) = 941" "fsub 1003 (fl 60) = 943"
  by code_simp+

theorem C9_rate_limiter_witness:
  "fst (run_calls [(1000, ''user1''), (1001, ''user1''), (1002, ''user2''), (1003, ''user1'')]
          (new_rate_limiter 2 60)) = [True, True, True, False]"
proof -
  let ?calls = "[(1000, ''user1''), (1001, ''user1''), (1002, ''user2''), (1003 :: rat, ''user1'')]"
  have win: "\<forall>j < length ?calls. \<forall>i < j. snd (?calls ! i) = snd (?calls ! j) \<longrightarrow>
             fsub (fst (?calls ! j)) (fl (of_int 60)) < fst (?calls ! i)"
  proof (intro allI impI)
    fix j i assume "j < length ?calls" "i < j" "snd (?calls ! i) = snd (?calls ! j)"
    then have "(i = 0 \<and> j = 1) \<or> (i = 0 \<and> j = 3) \<or> (i = 1 \<and> j = 3)"
      by (auto simp: less_Suc_eq nth_Cons')
    then show "fsub (fst (?calls ! j)) (fl (of_int 60)) < fst (?calls ! i)"
      by (auto simp: fl_window_examples)
  qed
  note inst = C9_rate_limiter [OF win, of 2 k cid' cid now rl rl']
  from inst have len: "length (fst (run_calls ?calls (new_rate_limiter 2 60))) = 4"
    by simp
  from inst have nth: "\<forall>j < 4. fst (run_calls ?calls (new_rate_limiter 2 60)) ! j =
         (int (length (filter (\<lambda>c. snd c = snd (?calls ! j)) (take j ?calls))) < 2)"
    by simp
  have n0: "fst (run_calls ?calls (new_rate_limiter 2 60)) ! 0 = True"
    using nth [rule_format, of 0] by simp
  have n1: "fst (run_calls ?calls (new_rate_limiter 2 60)) ! 1 = True"
    using nth [rule_format, of 1] by simp
  have n2: "fst (run_calls ?calls (new_rate_limiter 2 60)) ! 2 = True"
    using nth [rule_format, of 2] by (simp add: numeral_2_eq_2)
  have n3: "fst (run_calls ?calls (new_rate_limiter 2 60)) ! 3 = False"
    using nth [rule_format, of 3] by (simp add: numeral_3_eq_3)
  show ?thesis
  proof (rule nth_equalityI)
    show "length (fst (run_calls ?calls (new_rate_limiter 2 60))) = length [True, True, True, False]"
      using len by simp
  next
    fix j assume "j < length (fst (run_calls ?calls (new_rate_limiter 2 60)))"
    then have "j < 4" using len by simp
    then have "j = 0 \<or> j = 1 \<or> j = 2 \<or> j = 3" by auto
    then show "fst (run_calls ?calls (new_rate_limiter 2 60)) ! j = [True, True, True, False] ! j"
      using n0 n1 n2 n3 by (auto simp: numeral_2_eq_2 numeral_3_eq_3)
  qed
qed

section \<open>Analyzer: properties\<close>













lemma comprehension_filter: "[f t. t \<leftarrow> xs, P t] = map f (filter P xs)"
  by (induction xs) auto




lemma compute_analysis_fields:
  "categories (compute_analysis txs) = category_breakdown [] txs"
  "top_categories (compute_analysis txs) = take 5 (sorted_reverse snd (category_breakdown [] txs))"
  "total_income (compute_analysis txs) = py_sum (map amount (filter (\<lambda>t. 0 < amount t) txs))"
  "total_expenses (compute_analysis txs) = \<bar>py_sum (map amount (filter (\<lambda>t. amount t < 0) txs))\<bar>"
  "net_cashflow (compute_analysis txs) =
     fsub (total_income (compute_analysis txs)) (total_expenses (compute_analysis txs))"
  by (simp_all add: compute_analysis_def Let_def comprehension_filter)






section \<open>Analyzer: exact sums\<close>

text \<open>Rounding leaves an integer below \<open>2^53\<close> in magnitude as it is.\<close>

lemma round_half_even_of_int: "round_half_even (of_int k) = k"
  by (simp add: round_half_even_def)

lemma ilog2_of_int:
  assumes "0 < n"
  shows "ilog2 (of_int n) = bitlen n - 1"
proof -
  from assms have b: "1 \<le> bitlen n"
    using bitlen_eq_zero_iff [of n] bitlen_nonneg [of n] by linarith
  have "(2::int) ^ nat (bitlen n - 1) \<le> n"
    using bitlen_bounds [OF assms] by simp
  then have "(of_int ((2::int) ^ nat (bitlen n - 1)) :: rat) \<le> of_int n"
    by (simp only: of_int_le_iff)
  then have "pow2 (bitlen n - 1) \<le> of_int n"
    using b by (simp add: pow2_def power_int_def)
  moreover have "bitlen 1 = 1"
    by (simp add: bitlen_alt_def)
  ultimately show ?thesis
    by (simp add: ilog2_def Let_def)
qed

lemma bitlen_below_2_53:
  assumes "0 < n" "n < 2 ^ 53"
  shows "bitlen n \<le> 53"
proof (rule ccontr)
  assume "\<not> bitlen n \<le> 53"
  then have "53 \<le> nat (bitlen n - 1)" by simp
  then have "(2::int) ^ 53 \<le> 2 ^ nat (bitlen n - 1)"
    by (intro power_increasing) simp_all
  also have "\<dots> \<le> n" using bitlen_bounds [OF assms(1)] by simp
  finally show False using assms(2) by simp
qed

lemma fl_of_int:
  assumes "\<bar>n\<bar> < 2 ^ 53"
  shows "fl (of_int n) = of_int n"
proof (cases "n = 0")
  case True
  then show ?thesis by (simp add: fl_def)
next
  case False
  then have pos: "0 < \<bar>n\<bar>" by simp
  define e where "e = max (ilog2 \<bar>of_int n\<bar> - 52) (- 1074)"
  have "ilog2 \<bar>of_int n :: rat\<bar> = bitlen \<bar>n\<bar> - 1"
    using ilog2_of_int [OF pos] by simp
  then have e: "e \<le> 0"
    using bitlen_below_2_53 [OF pos assms] by (simp add: e_def)
  define a where "a = nat (- e)"
  have p: "pow2 e = 1 / 2 ^ a"
    using e by (simp add: pow2_def power_int_def a_def inverse_eq_divide power_one_over)
  have "of_int n / pow2 e = (of_int (n * 2 ^ a) :: rat)"
    by (simp add: p)
  then have "round_half_even (of_int n / pow2 e) = n * 2 ^ a"
    by (simp only: round_half_even_of_int)
  then have "fl (of_int n) = of_int (n * 2 ^ a) * pow2 e"
    using False by (simp add: fl_def Let_def e_def [symmetric])
  then show ?thesis
    by (simp add: p)
qed

lemma fl_int:
  assumes "x \<in> \<int>" "\<bar>x\<bar> < 2 ^ 53"
  shows "fl x = x"
proof -
  from assms(1) obtain n where n: "x = of_int n" by (auto elim: Ints_cases)
  with assms(2) have "(of_int \<bar>n\<bar> :: rat) < of_int (2 ^ 53)" by simp
  then have "\<bar>n\<bar> < 2 ^ 53" by (simp only: of_int_less_iff)
  then show ?thesis using n by (simp add: fl_of_int)
qed

lemma foldl_fadd_exact:
  assumes "a \<in> \<int>" "\<forall>x \<in> set xs. x \<in> \<int>" "\<bar>a\<bar> + (\<Sum>x\<leftarrow>xs. \<bar>x\<bar>) < 2 ^ 53"
  shows "foldl fadd a xs = a + sum_list xs"
  using assms
proof (induction xs arbitrary: a)
  case Nil
  then show ?case by simp
next
  case (Cons x xs)
  have i: "a + x \<in> \<int>" using Cons.prems by simp
  have "\<bar>a + x\<bar> \<le> \<bar>a\<bar> + \<bar>x\<bar>" by simp
  moreover have "0 \<le> (\<Sum>x\<leftarrow>xs. \<bar>x\<bar>)" by (rule sum_list_nonneg) auto
  ultimately have b: "\<bar>a + x\<bar> + (\<Sum>x\<leftarrow>xs. \<bar>x\<bar>) < 2 ^ 53" "\<bar>a + x\<bar> < 2 ^ 53"
    using Cons.prems(3) by simp_all
  have f: "fadd a x = a + x"
    using fl_int [OF i b(2)] by (simp add: fadd_def)
  have "foldl fadd (a + x) xs = a + x + sum_list xs"
    using Cons.prems(2) by (intro Cons.IH [OF i _ b(1)]) simp
  then show ?case by (simp add: f)
qed

lemma py_sum_exact:
  assumes "\<forall>x \<in> set xs. x \<in> \<int>" "(\<Sum>x\<leftarrow>xs. \<bar>x\<bar>) < 2 ^ 53"
  shows "py_sum xs = sum_list xs"
  using foldl_fadd_exact [of 0 xs] assms by (simp add: py_sum_def)


lemma categories_add_exact:
  assumes "\<forall>p \<in> set cats. snd p \<in> \<int> \<and> 0 \<le> snd p" "v \<in> \<int>" "0 \<le> v"
    and "sum_list (map snd cats) + v < 2 ^ 53"
  shows "sum_list (map snd (categories_add cats c v)) = sum_list (map snd cats) + v \<and>
    (\<forall>p \<in> set (categories_add cats c v). snd p \<in> \<int> \<and> 0 \<le> snd p)"
  using assms
proof (induction cats c v rule: categories_add.induct)
  case (1 cat v)
  then have "fl v = v" by (intro fl_int) simp_all
  then show ?case using 1 by (simp add: fadd_def)
next
  case (2 c s rest cat v)
  have s: "s \<in> \<int>" "0 \<le> s" using "2.prems"(1) by simp_all
  have rest: "0 \<le> sum_list (map snd rest)"
    using "2.prems"(1) by (intro sum_list_nonneg) auto
  show ?case
  proof (cases "c = cat")
    case True
    have "\<bar>s + v\<bar> < 2 ^ 53" using s "2.prems"(3,4) rest by simp
    then have "fl (s + v) = s + v" using s "2.prems"(2) by (intro fl_int) simp_all
    then show ?thesis using True "2.prems" s by (simp add: fadd_def)
  next
    case False
    have "sum_list (map snd rest) + v < 2 ^ 53" using "2.prems"(4) s by simp
    with "2.IH" [OF False] "2.prems" have
      "sum_list (map snd (categories_add rest cat v)) = sum_list (map snd rest) + v \<and>
       (\<forall>p \<in> set (categories_add rest cat v). snd p \<in> \<int> \<and> 0 \<le> snd p)"
      by simp
    then show ?thesis using False s by simp
  qed
qed

lemma category_breakdown_exact:
  assumes "\<forall>p \<in> set cats. snd p \<in> \<int> \<and> 0 \<le> snd p" "\<forall>t \<in> set txs. amount t \<in> \<int>"
    and "sum_list (map snd cats) + (\<Sum>t\<leftarrow>txs. \<bar>amount t\<bar>) < 2 ^ 53"
  shows "sum_list (map snd (category_breakdown cats txs)) =
     sum_list (map snd cats) + (\<Sum>t\<leftarrow>txs. \<bar>amount t\<bar>)"
  using assms
proof (induction txs arbitrary: cats)
  case Nil
  then show ?case by simp
next
  case (Cons t txs)
  let ?cats = "categories_add cats (category_key t) \<bar>amount t\<bar>"
  have nn: "0 \<le> (\<Sum>t\<leftarrow>txs. \<bar>amount t\<bar>)" by (rule sum_list_nonneg) auto
  have v: "\<bar>amount t\<bar> \<in> \<int>" "0 \<le> \<bar>amount t\<bar>" using Cons.prems(2) by simp_all
  have b: "sum_list (map snd cats) + \<bar>amount t\<bar> < 2 ^ 53"
    using Cons.prems(3) nn by simp
  note step = categories_add_exact [OF Cons.prems(1) v b, of "category_key t"]
  have "sum_list (map snd (category_breakdown ?cats txs)) =
      sum_list (map snd ?cats) + (\<Sum>t\<leftarrow>txs. \<bar>amount t\<bar>)"
    using step Cons.prems(2,3) by (intro Cons.IH) simp_all
  then show ?case using step by (simp add: Let_def)
qed

lemma sum_list_abs_split:
  "(\<Sum>t\<leftarrow>txs. \<bar>amount t\<bar>) =
     (\<Sum>t\<leftarrow>filter (\<lambda>t. 0 < amount t) txs. amount t) -
     (\<Sum>t\<leftarrow>filter (\<lambda>t. amount t < 0) txs. amount t)"
  by (induction txs) auto

lemma sum_list_abs_filter_le:
  "(\<Sum>t\<leftarrow>filter P txs. \<bar>amount t\<bar>) \<le> (\<Sum>t\<leftarrow>txs. \<bar>amount t\<bar>)"
  by (induction txs) auto

lemma sum_list_neg_nonpos: "(\<Sum>t\<leftarrow>filter (\<lambda>t. amount t < 0) txs. amount t) \<le> 0"
  by (induction txs) auto

lemma sum_list_pos_nonneg: "0 \<le> (\<Sum>t\<leftarrow>filter (\<lambda>t. 0 < amount t) txs. amount t)"
  by (induction txs) auto

lemma sum_list_Ints: "\<forall>x \<in> set xs. x \<in> \<int> \<Longrightarrow> sum_list xs \<in> (\<int> :: rat set)"
  by (induction xs) auto

text \<open>
  C7, amended. For every transaction list the net cash flow is the float difference of
  total income and total expenses. When every amount is a whole number and the total
  absolute volume is below \<open>2^53\<close>, no float addition rounds: total income is the sum
  of the positive amounts, total expenses the absolute value of the sum of the negative
  amounts, net cash flow equals income minus expenses exactly, and the per-category
  totals (unlabeled transactions under "uncategorized") sum exactly to the total
  absolute volume, which is income plus expenses.
\<close>

theorem C7_cashflow_identities:
  "net_cashflow (compute_analysis txs) =
     fsub (total_income (compute_analysis txs)) (total_expenses (compute_analysis txs)) \<and>
   ((\<forall>t \<in> set txs. amount t \<in> \<int>) \<and> (\<Sum>t\<leftarrow>txs. \<bar>amount t\<bar>) < 2 ^ 53 \<longrightarrow>
      total_income (compute_analysis txs) = (\<Sum>t\<leftarrow>filter (\<lambda>t. 0 < amount t) txs. amount t) \<and>
      total_expenses (compute_analysis txs) = \<bar>\<Sum>t\<leftarrow>filter (\<lambda>t. amount t < 0) txs. amount t\<bar> \<and>
      net_cashflow (compute_analysis txs) =
        total_income (compute_analysis txs) - total_expenses (compute_analysis txs) \<and>
      sum_list (map snd (categories (compute_analysis txs))) = (\<Sum>t\<leftarrow>txs. \<bar>amount t\<bar>) \<and>
      sum_list (map snd (categories (compute_analysis txs))) =
        total_income (compute_analysis txs) + total_expenses (compute_analysis txs))"
proof -
  let ?A = "compute_analysis txs"
  let ?pos = "filter (\<lambda>t. 0 < amount t) txs"
  let ?neg = "filter (\<lambda>t. amount t < 0) txs"
  have net: "net_cashflow ?A = fsub (total_income ?A) (total_expenses ?A)"
    by (rule compute_analysis_fields)
  have exact: "total_income ?A = (\<Sum>t\<leftarrow>?pos. amount t) \<and>
      total_expenses ?A = \<bar>\<Sum>t\<leftarrow>?neg. amount t\<bar> \<and>
      net_cashflow ?A = total_income ?A - total_expenses ?A \<and>
      sum_list (map snd (categories ?A)) = (\<Sum>t\<leftarrow>txs. \<bar>amount t\<bar>) \<and>
      sum_list (map snd (categories ?A)) = total_income ?A + total_expenses ?A"
    if ints: "\<forall>t \<in> set txs. amount t \<in> \<int>" and vol: "(\<Sum>t\<leftarrow>txs. \<bar>amount t\<bar>) < 2 ^ 53"
  proof -
    have pvol: "(\<Sum>x\<leftarrow>map amount ?pos. \<bar>x\<bar>) < 2 ^ 53"
      using sum_list_abs_filter_le [of "\<lambda>t. 0 < amount t" txs] vol
      by (simp add: comp_def)
    have nvol: "(\<Sum>x\<leftarrow>map amount ?neg. \<bar>x\<bar>) < 2 ^ 53"
      using sum_list_abs_filter_le [of "\<lambda>t. amount t < 0" txs] vol
      by (simp add: comp_def)
    have inc: "total_income ?A = (\<Sum>t\<leftarrow>?pos. amount t)"
      using ints pvol by (simp add: compute_analysis_fields py_sum_exact)
    have exp: "total_expenses ?A = \<bar>\<Sum>t\<leftarrow>?neg. amount t\<bar>"
      using ints nvol by (simp add: compute_analysis_fields py_sum_exact)
    have exp': "total_expenses ?A = - (\<Sum>t\<leftarrow>?neg. amount t)"
      using exp sum_list_neg_nonpos [of txs] by simp
    have total: "total_income ?A + total_expenses ?A = (\<Sum>t\<leftarrow>txs. \<bar>amount t\<bar>)"
      using inc exp' sum_list_abs_split [of txs] by simp
    have di: "total_income ?A - total_expenses ?A \<in> \<int>"
      using ints by (simp add: inc exp sum_list_Ints)
    have "\<bar>total_income ?A - total_expenses ?A\<bar> \<le> total_income ?A + total_expenses ?A"
      using inc exp sum_list_pos_nonneg [of txs] by simp
    then have "\<bar>total_income ?A - total_expenses ?A\<bar> < 2 ^ 53"
      using total vol by simp
    then have netx: "net_cashflow ?A = total_income ?A - total_expenses ?A"
      using fl_int [OF di] by (simp add: net fsub_def)
    have cats: "sum_list (map snd (categories ?A)) = (\<Sum>t\<leftarrow>txs. \<bar>amount t\<bar>)"
      using category_breakdown_exact [of "[]" txs] ints vol
      by (simp add: compute_analysis_fields)
    from inc exp netx cats total show ?thesis by simp
  qed
  from net exact show ?thesis by blast
qed


lemma analysis_of_rounding_transactions:
  "compute_analysis rounding_transactions =
     \<lparr>total_income = 3602879701896397 / 36028797018963968, total_expenses = 1 / 2,
      net_cashflow = - (3602879701896397 / 9007199254740992),
      categories = [(''supplier'', 1351079888211149 / 2251799813685248)],
      top_categories = [(''supplier'', 1351079888211149 / 2251799813685248)],
      num_transactions = 3, cashflow_positive = False, expense_ratio = Some 5\<rparr>"
  by code_simp

lemma rounding_values:
  "fadd (3602879701896397 / 36028797018963968) (1 / 2) = 5404319552844595 / 9007199254740992"
  "py_sum [1351079888211149 / 2251799813685248] = 1351079888211149 / 2251799813685248"
  "(\<Sum>t\<leftarrow>rounding_transactions. \<bar>amount t\<bar>) = 21617278211378381 / 36028797018963968"
  by code_simp+

text \<open>
  C7 as stated fails. The claim: for every transaction list the net cash flow equals
  income minus expenses exactly and the per-category totals sum exactly to the total
  absolute volume, i.e. to income plus expenses. For the amounts 0.1, -0.2 and -0.3 in
  one category the category total is 0.6000000000000001, while income is 0.1 and
  expenses are 0.5: the category total differs from their exact sum, from their float
  sum 0.6 and from the exact total of the absolute amounts; and the net cash flow, the
  float -0.4, differs from the exact difference of income and expenses.
\<close>

theorem C7_counterexample:
  "sum_list (map snd (categories (compute_analysis rounding_transactions))) \<noteq>
     total_income (compute_analysis rounding_transactions) +
     total_expenses (compute_analysis rounding_transactions) \<and>
   py_sum (map snd (categories (compute_analysis rounding_transactions))) \<noteq>
     fadd (total_income (compute_analysis rounding_transactions))
          (total_expenses (compute_analysis rounding_transactions)) \<and>
   sum_list (map snd (categories (compute_analysis rounding_transactions))) \<noteq>
     (\<Sum>t\<leftarrow>rounding_transactions. \<bar>amount t\<bar>) \<and>
   net_cashflow (compute_analysis rounding_transactions) \<noteq>
     total_income (compute_analysis rounding_transactions) -
     total_expenses (compute_analysis rounding_transactions)"
  by (simp add: analysis_of_rounding_transactions rounding_values)

lemma test_transactions_whole:
  "(\<forall>t \<in> set test_transactions. amount t \<in> \<int>) \<and>
   (\<Sum>t\<leftarrow>test_transactions. \<bar>amount t\<bar>) < 2 ^ 53"
  by (simp add: test_transactions_def)

theorem C7_cashflow_identities_witness:
  "total_income (compute_analysis test_transactions) = 5000 \<and>
   total_expenses (compute_analysis test_transactions) = 2500 \<and>
   net_cashflow (compute_analysis test_transactions) = 5000 - 2500 \<and>
   sum_list (map snd (categories (compute_analysis test_transactions))) = 5000 + 2500 \<and>
   (\<Sum>t\<leftarrow>test_transactions. \<bar>amount t\<bar>) = 7500"
proof -
  let ?A = "compute_analysis test_transactions"
  from C7_cashflow_identities [of test_transactions] test_transactions_whole
  have "total_income ?A = (\<Sum>t\<leftarrow>filter (\<lambda>t. 0 < amount t) test_transactions. amount t) \<and>
      total_expenses ?A = \<bar>\<Sum>t\<leftarrow>filter (\<lambda>t. amount t < 0) test_transactions. amount t\<bar> \<and>
      net_cashflow ?A = total_income ?A - total_expenses ?A \<and>
      sum_list (map snd (categories ?A)) = (\<Sum>t\<leftarrow>test_transactions. \<bar>amount t\<bar>) \<and>
      sum_list (map snd (categories ?A)) = total_income ?A + total_expenses ?A"
    by blast
  moreover have "(\<Sum>t\<leftarrow>filter (\<lambda>t. 0 < amount t) test_transactions. amount t) = 5000"
    "(\<Sum>t\<leftarrow>filter (\<lambda>t. amount t < 0) test_transactions. amount t) = - 2500"
    "(\<Sum>t\<leftarrow>test_transactions. \<bar>amount t\<bar>) = 7500"
    by (simp_all add: test_transactions_def)
  ultimately show ?thesis by simp
qed

section \<open>Remote store: properties\<close>







lemma seed_result:
  "fst (seed_knowledge_base lib srv kb r) = Inr () \<or>
   (\<exists>e. fst (seed_knowledge_base lib srv kb r) = Inl e \<and> snd (seed_knowledge_base lib srv kb r) = r)"
  by (auto simp: seed_knowledge_base_def add_documents_def Let_def
      split: option.splits sum.splits prod.splits if_splits)







lemma upsert_row_nonempty: "upsert_row t row \<noteq> []"
  by (cases t) auto























section \<open>Analyzer: the compensated sum\<close>

text \<open>
  The analyzer's figures do not depend on which of the two \<open>sum\<close> loops the interpreter
  runs, neither where no addition rounds nor on the three rounding transactions: the
  compensation term stays zero on whole amounts of a total volume below \<open>2^53\<close>, and the
  two loops return the same income and the same expenses for the amounts 0.1, -0.2 and
  -0.3.
\<close>

lemma compensated_loop_exact:
  assumes "f \<in> \<int>" "\<forall>x \<in> set xs. x \<in> \<int>" "\<bar>f\<bar> + (\<Sum>x\<leftarrow>xs. \<bar>x\<bar>) < 2 ^ 53"
  shows "compensated_loop f 0 xs = f + sum_list xs"
  using assms
proof (induction xs arbitrary: f)
  case Nil
  then show ?case by simp
next
  case (Cons x xs)
  have x: "x \<in> \<int>" using Cons.prems(2) by simp
  have i: "f + x \<in> \<int>" using Cons.prems(1) x by simp
  have nn: "0 \<le> (\<Sum>x\<leftarrow>xs. \<bar>x\<bar>)" by (rule sum_list_nonneg) auto
  have "\<bar>f + x\<bar> \<le> \<bar>f\<bar> + \<bar>x\<bar>" by simp
  then have b: "\<bar>f + x\<bar> + (\<Sum>x\<leftarrow>xs. \<bar>x\<bar>) < 2 ^ 53" "\<bar>f + x\<bar> < 2 ^ 53"
    using Cons.prems(3) nn by simp_all
  have bx: "\<bar>x\<bar> < 2 ^ 53" "\<bar>f\<bar> < 2 ^ 53"
    using Cons.prems(3) nn by simp_all
  have t: "fadd f x = f + x"
    using fl_int [OF i b(2)] by (simp add: fadd_def)
  have c1: "fadd (fsub f (f + x)) x = 0"
    using fl_int [of "- x"] x bx(1) by (simp add: fsub_def fadd_def fl_zero)
  have c2: "fadd (fsub x (f + x)) f = 0"
    using fl_int [of "- f"] Cons.prems(1) bx(2) by (simp add: fsub_def fadd_def fl_zero)
  have c0: "fadd 0 0 = 0" by (simp add: fadd_def fl_zero)
  have "compensated_loop f 0 (x # xs) = compensated_loop (f + x) 0 xs"
    by (simp add: Let_def t c1 c2 c0)
  also have "\<dots> = f + x + sum_list xs"
    using Cons.prems(2) by (intro Cons.IH [OF i _ b(1)]) simp
  finally show ?case by simp
qed

lemma py_sum_compensated_exact:
  assumes "\<forall>x \<in> set xs. x \<in> \<int>" "(\<Sum>x\<leftarrow>xs. \<bar>x\<bar>) < 2 ^ 53"
  shows "py_sum_compensated xs = sum_list xs \<and> py_sum_compensated xs = py_sum xs"
proof (cases xs)
  case Nil
  then show ?thesis by (simp add: py_sum_compensated_def py_sum_def)
next
  case (Cons x rest)
  have nn: "0 \<le> (\<Sum>x\<leftarrow>rest. \<bar>x\<bar>)" by (rule sum_list_nonneg) auto
  have x: "x \<in> \<int>" "\<bar>x\<bar> < 2 ^ 53" using assms Cons nn by simp_all
  have f: "fadd 0 x = x" using fl_int [OF x] by (simp add: fadd_def)
  have "compensated_loop x 0 rest = x + sum_list rest"
    using assms Cons by (intro compensated_loop_exact) simp_all
  then have "py_sum_compensated xs = sum_list xs"
    using Cons f by (simp add: py_sum_compensated_def)
  then show ?thesis
    using py_sum_exact [OF assms] by simp
qed

lemma py_sum_compensated_rounding:
  "py_sum_compensated (map amount (filter (\<lambda>t. 0 < amount t) rounding_transactions)) =
     py_sum (map amount (filter (\<lambda>t. 0 < amount t) rounding_transactions)) \<and>
   py_sum_compensated (map amount (filter (\<lambda>t. amount t < 0) rounding_transactions)) =
     py_sum (map amount (filter (\<lambda>t. amount t < 0) rounding_transactions))"
  by code_simp

end
